theory Spec2Isabelle
  imports Main
begin

section \<open>JavaScript values used by the poll components\<close>

text \<open>
  Strings are lists of 8-bit characters, read as the code units U+0000 to U+00FF.
  A response value (\<open>response_data\<close>, typed \<open>any\<close> in the presenter) is a
  text or an integer number (one that a JavaScript number holds exactly).
\<close>

datatype response_data = Text string | Number int

text \<open>
  Conversion of a number to a property key (\<open>ToString\<close>): decimal digits, with a
  minus sign for a negative number. This is what JavaScript prints for every integer of
  magnitude below \<open>10^21\<close>.
\<close>

definition digit_char :: "nat \<Rightarrow> char" where
  "digit_char d = ''0123456789'' ! d"

fun digits :: "nat \<Rightarrow> string" where
  "digits n = (if n < 10 then [digit_char n] else digits (n div 10) @ [digit_char (n mod 10)])"

declare digits.simps [simp del]

definition number_key :: "int \<Rightarrow> string" where
  "number_key i = (if i < 0 then CHR ''-'' # digits (nat (- i)) else digits (nat i))"

fun to_key :: "response_data \<Rightarrow> string" where
  "to_key (Text s) = s"
| "to_key (Number n) = number_key n"

section \<open>Ordinary objects used as dictionaries\<close>

text \<open>
  An object created by \<open>{}\<close> is modelled by its own properties in creation order.
  Assigning to an existing key keeps the key's position; assigning to a new key appends
  it. The objects of the components also inherit the members of \<open>Object.prototype\<close>
  (\<open>constructor\<close>, \<open>toString\<close>, the accessor \<open>__proto__\<close>, ...): reading such a
  name that is not an own property yields the inherited member, and an assignment to
  \<open>__proto__\<close> is intercepted by that accessor. \<open>obj_get\<close> and \<open>obj_set\<close> are the
  read and the assignment for the keys for which neither happens; the predicate
  \<open>plain_key\<close> names them.
\<close>

type_synonym 'v js_object = "(string \<times> 'v) list"

definition object_prototype_keys :: "string list" where
  "object_prototype_keys =
     [''constructor'', ''hasOwnProperty'', ''isPrototypeOf'', ''propertyIsEnumerable'',
      ''toLocaleString'', ''toString'', ''valueOf'', ''__proto__'',
      ''__defineGetter__'', ''__defineSetter__'', ''__lookupGetter__'', ''__lookupSetter__'']"

definition plain_key :: "string \<Rightarrow> bool" where
  "plain_key k = (k \<notin> set object_prototype_keys)"

definition obj_get :: "'v js_object \<Rightarrow> string \<Rightarrow> 'v option" where
  "obj_get obj k = map_of obj k"

fun obj_set :: "'v js_object \<Rightarrow> string \<Rightarrow> 'v \<Rightarrow> 'v js_object" where
  "obj_set [] k v = [(k, v)]"
| "obj_set ((k', v') # kvs) k v =
     (if k' = k then (k, v) # kvs else (k', v') # obj_set kvs k v)"

text \<open>
  The assignment \<open>counts[k] = n\<close> of a number to an object created by \<open>{}\<close>. For
  the key \<open>__proto__\<close> the assignment reaches the accessor that the object inherits
  from \<open>Object.prototype\<close>; its setter ignores a value that is not an object, so no
  own property is created and the object is as before. For every other key the
  assignment creates or updates the own property, also when the name is inherited
  (\<open>constructor\<close>, \<open>toString\<close>, ... are writable data properties); the keys 1 to
  10 of the rating chart are such keys.
\<close>

definition obj_assign_number :: "nat js_object \<Rightarrow> string \<Rightarrow> nat \<Rightarrow> nat js_object" where
  "obj_assign_number obj k n = (if k = ''__proto__'' then obj else obj_set obj k n)"

text \<open>
  \<open>Object.entries\<close> lists the own properties in the order of
  \<open>OrdinaryOwnPropertyKeys\<close>: first the keys that are array indices (the canonical
  decimal form of an integer from 0 to \<open>2^32 - 2\<close>) in ascending numeric order, then
  the other string keys in creation order.
\<close>

definition is_digit :: "char \<Rightarrow> bool" where
  "is_digit c = (48 \<le> (of_char c :: nat) \<and> (of_char c :: nat) \<le> 57)"

definition index_value :: "string \<Rightarrow> nat" where
  "index_value s = foldl (\<lambda>a c. 10 * a + (of_char c - 48)) 0 s"

definition is_array_index :: "string \<Rightarrow> bool" where
  "is_array_index s =
     (s \<noteq> [] \<and> list_all is_digit s \<and> (s = ''0'' \<or> hd s \<noteq> CHR ''0'')
      \<and> index_value s < 4294967295)"

definition object_entries :: "'v js_object \<Rightarrow> (string \<times> 'v) list" where
  "object_entries obj =
     sort_key (\<lambda>kv. index_value (fst kv)) (filter (\<lambda>kv. is_array_index (fst kv)) obj)
     @ filter (\<lambda>kv. \<not> is_array_index (fst kv)) obj"

section \<open>Array.prototype.sort with a comparator\<close>

text \<open>
  \<open>sort(cmp)\<close> is stable: elements that compare equal keep their relative order. For a
  consistent comparator the result of a stable sort is determined by the input, so it is
  modelled by insertion sort from the right, which places an element before the first
  element it does not have to follow.
\<close>

fun insert_by :: "('a \<Rightarrow> 'a \<Rightarrow> int) \<Rightarrow> 'a \<Rightarrow> 'a list \<Rightarrow> 'a list" where
  "insert_by cmp x [] = [x]"
| "insert_by cmp x (y # ys) =
     (if cmp x y \<le> 0 then x # y # ys else y # insert_by cmp x ys)"

definition sort_by :: "('a \<Rightarrow> 'a \<Rightarrow> int) \<Rightarrow> 'a list \<Rightarrow> 'a list" where
  "sort_by cmp xs = foldr (insert_by cmp) xs []"

section \<open>The presenter view (PollPresenter.tsx)\<close>

datatype question_type = multiple_choice | word_cloud | rating | open_ended

record question =
  q_id :: string
  question_type :: question_type
  question_text :: string
  options :: "string list option"
  order_index :: int

text \<open>A row of the \<open>responses\<close> table, as delivered in \<open>payload.new\<close>.\<close>

record response_row =
  question_id :: string
  response_data :: response_data

text \<open>The component's state: one field for each \<open>useState\<close> cell the claims read.\<close>

record presenter =
  currentQuestionIndex :: nat
  responses :: "response_data list js_object"
  participantCount :: nat
  questions :: "question list"

text \<open>
  The initial values of the \<open>useState\<close> cells, and \<open>setQuestions\<close>, which
  \<open>fetchQuestions\<close> calls with the questions of the presentation.
\<close>

definition initial_presenter :: presenter where
  "initial_presenter =
     \<lparr>currentQuestionIndex = 0, responses = [], participantCount = 0, questions = []\<rparr>"

definition setQuestions :: "presenter \<Rightarrow> question list \<Rightarrow> presenter" where
  "setQuestions s formattedQuestions = s\<lparr>questions := formattedQuestions\<rparr>"

text \<open>\<open>questions[currentQuestionIndex]\<close> is \<open>undefined\<close> outside the array.\<close>

definition currentQuestion :: "presenter \<Rightarrow> question option" where
  "currentQuestion s =
     (if currentQuestionIndex s < length (questions s)
      then Some (questions s ! currentQuestionIndex s) else None)"

text \<open>
  Both the realtime callback and \<open>fetchResponses\<close> file a row under its question:
  create the array when the key has none, then \<open>push\<close> the value.
\<close>

definition push_response ::
  "response_data list js_object \<Rightarrow> response_row \<Rightarrow> response_data list js_object" where
  "push_response obj r =
     (let updated = (if obj_get obj (question_id r) = None
                     then obj_set obj (question_id r) [] else obj)
      in obj_set updated (question_id r)
           ((case obj_get updated (question_id r) of None \<Rightarrow> [] | Some a \<Rightarrow> a)
            @ [response_data r]))"

text \<open>
  The callback of the \<open>INSERT\<close> subscription on the \<open>responses\<close> table. The
  subscription delivers the inserted rows of the presentation's questions; the callback
  itself looks at nothing but the row. The updater given to \<open>setResponses\<close> is taken
  to run once for each event.
\<close>

definition on_response_insert :: "presenter \<Rightarrow> response_row \<Rightarrow> presenter" where
  "on_response_insert s newResponse =
     s\<lparr>responses := push_response (responses s) newResponse,
       participantCount := participantCount s + 1\<rparr>"

text \<open>
  \<open>fetchResponses\<close>: the effect does nothing for an empty question list, and nothing
  when the store answers with an error (\<open>None\<close>); otherwise it replaces the response
  map by the grouped rows and the participant count by the number of rows.
\<close>

definition fetchResponses :: "presenter \<Rightarrow> response_row list option \<Rightarrow> presenter" where
  "fetchResponses s reply =
     (if questions s = [] then s
      else case reply of
             None \<Rightarrow> s
           | Some data \<Rightarrow>
               s\<lparr>responses := foldl push_response [] data,
                 participantCount := length data\<rparr>)"

definition nextQuestion :: "presenter \<Rightarrow> presenter" where
  "nextQuestion s =
     (if int (currentQuestionIndex s) < int (length (questions s)) - 1
      then s\<lparr>currentQuestionIndex := currentQuestionIndex s + 1\<rparr> else s)"

definition prevQuestion :: "presenter \<Rightarrow> presenter" where
  "prevQuestion s =
     (if currentQuestionIndex s > 0
      then s\<lparr>currentQuestionIndex := currentQuestionIndex s - 1\<rparr> else s)"

text \<open>\<open>responses[currentQuestion.id] || []\<close>: an array is truthy even when empty.\<close>

definition questionResponses :: "presenter \<Rightarrow> question \<Rightarrow> response_data list" where
  "questionResponses s q =
     (case obj_get (responses s) (q_id q) of None \<Rightarrow> [] | Some a \<Rightarrow> a)"

record chart_entry =
  name :: string
  val :: nat

text \<open>\<open>currentQuestion.options?.forEach\<close> visits nothing when the options are absent.\<close>

definition declared_options :: "question \<Rightarrow> string list" where
  "declared_options q = (case options q of None \<Rightarrow> [] | Some os \<Rightarrow> os)"

definition chart_counts_multiple_choice ::
  "string list \<Rightarrow> response_data list \<Rightarrow> nat js_object" where
  "chart_counts_multiple_choice opts rs =
     foldl (\<lambda>counts option.
              obj_assign_number counts option (length (filter (\<lambda>r. r = Text option) rs)))
       [] opts"

definition chart_counts_rating :: "response_data list \<Rightarrow> nat js_object" where
  "chart_counts_rating rs =
     foldl (\<lambda>counts i. obj_set counts (number_key i) (length (filter (\<lambda>r. r = Number i) rs)))
       [] [1..10]"

definition chart_data :: "question \<Rightarrow> response_data list \<Rightarrow> chart_entry list" where
  "chart_data q rs =
     (if question_type q = multiple_choice then
        map (\<lambda>(n, v). \<lparr>name = n, val = v\<rparr>)
          (object_entries
             (chart_counts_multiple_choice (declared_options q) rs))
      else if question_type q = rating then
        map (\<lambda>(n, v). \<lparr>name = n, val = v\<rparr>) (object_entries (chart_counts_rating rs))
      else [])"

definition getChartData :: "presenter \<Rightarrow> chart_entry list" where
  "getChartData s =
     (case currentQuestion s of
        None \<Rightarrow> []
      | Some q \<Rightarrow> chart_data q (questionResponses s q))"

record word_count =
  word :: string
  count :: nat

definition word_counts :: "response_data list \<Rightarrow> nat js_object" where
  "word_counts rs =
     foldl (\<lambda>counts w. obj_set counts (to_key w)
                          ((case obj_get counts (to_key w) of None \<Rightarrow> 0 | Some c \<Rightarrow> c) + 1))
       [] rs"

definition cmp_count :: "word_count \<Rightarrow> word_count \<Rightarrow> int" where
  "cmp_count a b = int (count b) - int (count a)"

definition word_cloud_data :: "response_data list \<Rightarrow> word_count list" where
  "word_cloud_data rs =
     take 10 (sort_by cmp_count
                (map (\<lambda>(w, c). \<lparr>word = w, count = c\<rparr>) (object_entries (word_counts rs))))"

definition getWordCloudData :: "presenter \<Rightarrow> word_count list" where
  "getWordCloudData s =
     (case currentQuestion s of
        None \<Rightarrow> []
      | Some q \<Rightarrow> word_cloud_data (questionResponses s q))"

text \<open>
  The render reads \<open>responses[currentQuestion.id] || []\<close> directly: the open-ended
  panel shows this array as it is, one card for each element in array order, and the line
  below every panel shows its length as the number of responses received.
\<close>

definition current_responses :: "presenter \<Rightarrow> response_data list" where
  "current_responses s =
     (case currentQuestion s of None \<Rightarrow> [] | Some q \<Rightarrow> questionResponses s q)"

definition responses_received :: "presenter \<Rightarrow> nat" where
  "responses_received s = length (current_responses s)"

section \<open>Vocabulary for the order of the word-cloud entries\<close>

text \<open>The position at which a key is first seen in the sequence of response keys.\<close>

definition first_seen :: "string list \<Rightarrow> string \<Rightarrow> nat" where
  "first_seen ks k = length (takeWhile (\<lambda>x. x \<noteq> k) ks)"

text \<open>
  The order in which \<open>Object.entries\<close> lists two distinct own keys of an object that
  was filled in the order \<open>ks\<close>: an array index precedes every other key, two array
  indices follow their numeric order, and two other keys follow their first appearance.
\<close>

definition own_key_before :: "string list \<Rightarrow> string \<Rightarrow> string \<Rightarrow> bool" where
  "own_key_before ks x y =
     (if is_array_index x
      then (\<not> is_array_index y \<or> index_value x < index_value y)
      else (\<not> is_array_index y \<and> first_seen ks x < first_seen ks y))"

text \<open>The number of response values held in the response map, over all questions.\<close>

definition total_responses :: "presenter \<Rightarrow> nat" where
  "total_responses s = sum_list (map (\<lambda>kv. length (snd kv)) (responses s))"

section \<open>Properties of the object model\<close>

lemma keys_obj_set:
  "map fst (obj_set obj k v) = (if k \<in> fst ` set obj then map fst obj else map fst obj @ [k])"
  by (induction obj) force+

lemma distinct_obj_set:
  "distinct (map fst obj) \<Longrightarrow> distinct (map fst (obj_set obj k v))"
  by (simp add: keys_obj_set)

lemma map_of_obj_set: "map_of (obj_set obj k v) = (map_of obj)(k \<mapsto> v)"
  by (induction obj) auto

lemma obj_set_same: "map_of obj k = Some v \<Longrightarrow> obj_set obj k v = obj"
  by (induction obj) (auto split: if_splits)

lemma obj_set_new: "k \<notin> fst ` set obj \<Longrightarrow> obj_set obj k v = obj @ [(k, v)]"
  by (induction obj) auto

lemma sum_list_insort_key:
  "sum_list (map g (insort_key f x xs)) = (g x + sum_list (map g xs) :: nat)"
  by (induction xs) auto

lemma sum_list_sort_key: "sum_list (map g (sort_key f xs)) = (sum_list (map g xs) :: nat)"
  by (induction xs) (simp_all add: sum_list_insort_key)

lemma sum_list_partition:
  "sum_list (map g (filter P xs)) + sum_list (map g (filter (\<lambda>x. \<not> P x) xs))
     = (sum_list (map g xs) :: nat)"
  by (induction xs) auto

lemma sum_list_object_entries:
  "sum_list (map (g :: string \<times> 'a \<Rightarrow> nat) (object_entries obj)) = sum_list (map g obj)"
  by (simp add: object_entries_def sum_list_sort_key sum_list_partition)

lemma set_object_entries: "set (object_entries obj) = set obj"
  by (auto simp: object_entries_def)

lemma distinct_keys_sort_key:
  "distinct (map fst (sort_key k xs)) = distinct (map fst xs)"
  by (simp add: distinct_map)

section \<open>Decimal keys\<close>

lemma char_by_code: "(of_char c :: nat) = of_char d \<Longrightarrow> c = d"
  by simp

lemma digit_char_of_digit:
  assumes "is_digit c"
  shows "digit_char (of_char c - 48) = c"
proof -
  from assms have "48 \<le> (of_char c :: nat)" and "(of_char c :: nat) \<le> 57"
    by (simp_all add: is_digit_def)
  then have "(of_char c :: nat) \<in> {48, 49, 50, 51, 52, 53, 54, 55, 56, 57}"
    by (simp add: numeral_eq_Suc) arith
  then have "c \<in> set ''0123456789''"
    by (auto intro!: char_by_code)
  then show ?thesis
    by (auto simp: digit_char_def)
qed

lemma index_value_snoc:
  "index_value (s @ [c]) = 10 * index_value s + (of_char c - 48)"
  by (simp add: index_value_def)

lemma index_value_positive:
  assumes "s \<noteq> []" and "list_all is_digit s" and "hd s \<noteq> CHR ''0''"
  shows "0 < index_value s"
  using assms
proof (induction s rule: rev_induct)
  case Nil
  then show ?case by simp
next
  case (snoc c s)
  show ?case
  proof (cases "s = []")
    case True
    with snoc.prems have "is_digit c" and "c \<noteq> CHR ''0''"
      by simp_all
    have "(of_char c :: nat) \<noteq> 48"
    proof
      assume "(of_char c :: nat) = 48"
      then have "(of_char c :: nat) = of_char (CHR ''0'')"
        by simp
      then have "c = CHR ''0''"
        by (rule char_by_code)
      with \<open>c \<noteq> CHR ''0''\<close> show False
        by simp
    qed
    moreover from \<open>is_digit c\<close> have "48 \<le> (of_char c :: nat)"
      by (simp add: is_digit_def)
    ultimately show ?thesis
      using True by (simp add: index_value_def)
  next
    case False
    with snoc have "0 < index_value s"
      by simp
    then show ?thesis
      by (simp add: index_value_snoc)
  qed
qed

lemma digits_index_value:
  assumes "s \<noteq> []" and "list_all is_digit s" and "s = ''0'' \<or> hd s \<noteq> CHR ''0''"
  shows "digits (index_value s) = s"
  using assms
proof (induction s rule: rev_induct)
  case Nil
  then show ?case by simp
next
  case (snoc c s)
  from snoc.prems have digit: "is_digit c"
    by simp
  then have small: "(of_char c :: nat) - 48 < 10"
    by (auto simp: is_digit_def)
  show ?case
  proof (cases "s = []")
    case True
    have "digits (of_char c - 48) = [digit_char (of_char c - 48)]"
      by (subst digits.simps) (simp only: small if_True)
    with True digit show ?thesis
      by (simp add: index_value_def digit_char_of_digit)
  next
    case False
    from snoc.prems(2) have all: "list_all is_digit s"
      by simp
    from False have "s @ [c] \<noteq> ''0''" and "hd (s @ [c]) = hd s"
      by (cases s; simp)+
    with snoc.prems(3) have lead: "hd s \<noteq> CHR ''0''"
      by simp
    have pos: "0 < index_value s"
      using False all lead by (rule index_value_positive)
    have "digits (index_value s) = s"
      using False all lead by (intro snoc.IH disjI2)
    moreover have "digits (10 * index_value s + (of_char c - 48))
        = digits (index_value s) @ [digit_char (of_char c - 48)]"
    proof -
      define v where "v = index_value s"
      define d :: nat where "d = of_char c - 48"
      have big: "\<not> 10 * v + d < 10"
        using pos by (simp add: v_def)
      have quot: "(10 * v + d) div 10 = v"
        using small by (simp add: d_def)
      have rest: "(10 * v + d) mod 10 = d"
        using small by (simp add: d_def)
      have "digits (10 * v + d) = digits v @ [digit_char d]"
        by (subst digits.simps) (simp only: big quot rest if_False)
      then show ?thesis
        by (simp only: v_def d_def)
    qed
    ultimately show ?thesis
      using digit by (simp add: index_value_snoc digit_char_of_digit)
  qed
qed

lemma index_value_inj:
  assumes "is_array_index x" and "is_array_index y" and "index_value x = index_value y"
  shows "x = y"
proof -
  have canonical: "digits (index_value s) = s" if "is_array_index s" for s
  proof (rule digits_index_value)
    from that show "s \<noteq> []" and "list_all is_digit s" and "s = ''0'' \<or> hd s \<noteq> CHR ''0''"
      unfolding is_array_index_def by blast+
  qed
  have "x = digits (index_value x)"
    using canonical[OF assms(1)] by (rule sym)
  also have "\<dots> = digits (index_value y)"
    by (simp only: assms(3))
  also have "\<dots> = y"
    using assms(2) by (rule canonical)
  finally show ?thesis .
qed

lemma number_key_one_to_ten:
  "number_key 1 = ''1''" "number_key 2 = ''2''" "number_key 3 = ''3''" "number_key 4 = ''4''"
  "number_key 5 = ''5''" "number_key 6 = ''6''" "number_key 7 = ''7''" "number_key 8 = ''8''"
  "number_key 9 = ''9''" "number_key 10 = ''10''"
  by (simp_all add: number_key_def digits.simps digit_char_def)

lemma upto_one_to_ten: "[1..10] = [1, 2, 3, 4, 5, 6, 7, 8, 9, 10 :: int]"
  by (simp add: upto.simps)

section \<open>Properties of the stable sort\<close>

lemma set_insert_by: "set (insert_by cmp x ys) = insert x (set ys)"
  by (induction ys) auto

lemma set_sort_by: "set (sort_by cmp xs) = set xs"
  by (induction xs) (simp_all add: sort_by_def set_insert_by)

lemma length_insert_by: "length (insert_by cmp x ys) = Suc (length ys)"
  by (induction ys) auto

lemma length_sort_by: "length (sort_by cmp xs) = length xs"
  by (induction xs) (simp_all add: sort_by_def length_insert_by)

lemma insert_by_descending:
  "sorted_wrt (\<lambda>a b. count b \<le> count a) ys \<Longrightarrow>
   sorted_wrt (\<lambda>a b. count b \<le> count a) (insert_by cmp_count x ys)"
  by (induction ys) (auto simp: set_insert_by cmp_count_def)

lemma sort_by_descending: "sorted_wrt (\<lambda>a b. count b \<le> count a) (sort_by cmp_count xs)"
proof (induction xs)
  case Nil
  show ?case by (simp add: sort_by_def)
next
  case (Cons x xs)
  have "sort_by cmp_count (x # xs) = insert_by cmp_count x (sort_by cmp_count xs)"
    by (simp add: sort_by_def)
  with Cons show ?case by (simp add: insert_by_descending)
qed

lemma insert_by_stable:
  "sorted_wrt (\<lambda>a b. cmp b a \<le> 0 \<longrightarrow> P a b) ys \<Longrightarrow> \<forall>z\<in>set ys. P x z \<Longrightarrow>
   sorted_wrt (\<lambda>a b. cmp b a \<le> 0 \<longrightarrow> P a b) (insert_by cmp x ys)"
  by (induction ys) (auto simp: set_insert_by)

lemma sort_by_stable:
  "sorted_wrt P xs \<Longrightarrow> sorted_wrt (\<lambda>a b. cmp b a \<le> 0 \<longrightarrow> P a b) (sort_by cmp xs)"
proof (induction xs)
  case Nil
  show ?case by (simp add: sort_by_def)
next
  case (Cons x xs)
  have unfold: "sort_by cmp (x # xs) = insert_by cmp x (sort_by cmp xs)"
    by (simp add: sort_by_def)
  from Cons.prems have "\<forall>z\<in>set (sort_by cmp xs). P x z"
    by (simp add: set_sort_by)
  moreover from Cons have "sorted_wrt (\<lambda>a b. cmp b a \<le> 0 \<longrightarrow> P a b) (sort_by cmp xs)"
    by simp
  ultimately show ?case
    unfolding unfold by (rule insert_by_stable[rotated])
qed

lemma sorted_wrt_strict:
  assumes "sorted_wrt (\<lambda>a b. f a \<le> (f b :: nat)) xs" and "distinct xs"
    and "\<And>a b. a \<in> set xs \<Longrightarrow> b \<in> set xs \<Longrightarrow> f a = f b \<Longrightarrow> a = b"
  shows "sorted_wrt (\<lambda>a b. f a < f b) xs"
  using assms
proof (induction xs)
  case Nil
  show ?case by simp
next
  case (Cons x xs)
  have "f x < f y" if "y \<in> set xs" for y
  proof -
    from Cons.prems(1) that have "f x \<le> f y"
      by simp
    moreover from Cons.prems(2) that have "x \<noteq> y"
      by auto
    with Cons.prems(3)[of x y] that have "f x \<noteq> f y"
      by auto
    ultimately show ?thesis by simp
  qed
  moreover from Cons have "sorted_wrt (\<lambda>a b. f a < f b) xs"
    by simp
  ultimately show ?case by simp
qed

section \<open>The order of the own keys\<close>

lemma first_seen_append: "k \<in> set ks \<Longrightarrow> first_seen (ks @ ls) k = first_seen ks k"
  by (simp add: first_seen_def)

lemma first_seen_less: "k \<in> set ks \<Longrightarrow> first_seen ks k < length ks"
  by (induction ks) (auto simp: first_seen_def)

lemma first_seen_new: "k \<notin> set ks \<Longrightarrow> first_seen (ks @ [k]) k = length ks"
  by (induction ks) (auto simp: first_seen_def)

lemma object_entries_order:
  assumes "sorted_wrt (\<lambda>x y. first_seen ks x < first_seen ks y) (map fst obj)"
    and "distinct (map fst obj)"
  shows "sorted_wrt (own_key_before ks) (map fst (object_entries obj))"
proof -
  let ?iv = "\<lambda>kv :: string \<times> 'a. index_value (fst kv)"
  let ?idx = "filter (\<lambda>kv. is_array_index (fst kv)) obj"
  let ?rest = "filter (\<lambda>kv. \<not> is_array_index (fst kv)) obj"
  let ?keys = "map fst (sort_key ?iv ?idx)"
  have "sorted (map ?iv (sort_key ?iv ?idx))"
    by (rule sorted_sort_key)
  then have ascending: "sorted_wrt (\<lambda>a b. index_value a \<le> index_value b) ?keys"
    by (simp add: sorted_wrt_map)
  have different: "distinct ?keys"
    using assms(2) by (simp add: distinct_keys_sort_key distinct_map_filter)
  have indices: "is_array_index a" if "a \<in> set ?keys" for a
    using that by auto
  have "sorted_wrt (\<lambda>a b. index_value a < index_value b) ?keys"
    using ascending different
  proof (rule sorted_wrt_strict)
    fix a b
    assume "a \<in> set ?keys" and "b \<in> set ?keys" and "index_value a = index_value b"
    then show "a = b"
      using indices by (intro index_value_inj)
  qed
  then have idx_part: "sorted_wrt (own_key_before ks) ?keys"
    by (rule sorted_wrt_mono_rel[rotated]) (auto simp: own_key_before_def)
  have "sorted_wrt (\<lambda>x y. first_seen ks x < first_seen ks y) (map fst ?rest)"
    using assms(1) by (simp add: sorted_wrt_map sorted_wrt_filter)
  then have rest_part: "sorted_wrt (own_key_before ks) (map fst ?rest)"
    by (rule sorted_wrt_mono_rel[rotated]) (auto simp: own_key_before_def)
  have "\<forall>x\<in>set ?keys. \<forall>y\<in>set (map fst ?rest). own_key_before ks x y"
    by (auto simp: own_key_before_def)
  with idx_part rest_part show ?thesis
    by (simp add: object_entries_def sorted_wrt_append)
qed

section \<open>Counting words\<close>

lemma word_counts_snoc:
  "word_counts (rs @ [r]) =
     obj_set (word_counts rs) (to_key r)
       ((case obj_get (word_counts rs) (to_key r) of None \<Rightarrow> 0 | Some c \<Rightarrow> c) + 1)"
  by (simp add: word_counts_def)

lemma keys_word_counts: "fst ` set (word_counts rs) = to_key ` set rs"
proof (induction rs rule: rev_induct)
  case Nil
  show ?case by (simp add: word_counts_def)
next
  case (snoc r rs)
  have "fst ` set (word_counts (rs @ [r])) = set (map fst (word_counts (rs @ [r])))"
    by simp
  also have "\<dots> = insert (to_key r) (fst ` set (word_counts rs))"
    unfolding word_counts_snoc keys_obj_set by auto
  finally show ?case using snoc by auto
qed

lemma distinct_word_counts: "distinct (map fst (word_counts rs))"
proof (induction rs rule: rev_induct)
  case Nil
  show ?case by (simp add: word_counts_def)
next
  case (snoc r rs)
  then show ?case unfolding word_counts_snoc by (rule distinct_obj_set)
qed

lemma map_of_word_counts:
  "map_of (word_counts rs) k =
     (if k \<in> to_key ` set rs then Some (length (filter (\<lambda>r. to_key r = k) rs)) else None)"
proof (induction rs rule: rev_induct)
  case Nil
  show ?case by (simp add: word_counts_def)
next
  case (snoc r rs)
  show ?case
    unfolding word_counts_snoc map_of_obj_set obj_get_def
    using snoc by (auto simp: filter_empty_conv image_iff) metis+
qed

lemma word_counts_first_seen:
  "sorted_wrt (\<lambda>x y. first_seen (map to_key rs) x < first_seen (map to_key rs) y)
     (map fst (word_counts rs))"
proof (induction rs rule: rev_induct)
  case Nil
  show ?case by (simp add: word_counts_def)
next
  case (snoc r rs)
  let ?ks = "map to_key rs"
  let ?k = "to_key r"
  have old: "sorted_wrt (\<lambda>x y. first_seen (?ks @ [?k]) x < first_seen (?ks @ [?k]) y)
               (map fst (word_counts rs))"
  proof (rule sorted_wrt_mono_rel[OF _ snoc])
    fix x y
    assume "x \<in> set (map fst (word_counts rs))" "y \<in> set (map fst (word_counts rs))"
      and "first_seen ?ks x < first_seen ?ks y"
    moreover have "set (map fst (word_counts rs)) = set ?ks"
      using keys_word_counts[of rs] by simp
    ultimately show "first_seen (?ks @ [?k]) x < first_seen (?ks @ [?k]) y"
      by (simp add: first_seen_append)
  qed
  show ?case
  proof (cases "?k \<in> fst ` set (word_counts rs)")
    case True
    then show ?thesis
      unfolding word_counts_snoc keys_obj_set using old by simp
  next
    case False
    then have new: "?k \<notin> set ?ks"
      using keys_word_counts[of rs] by simp
    have "\<forall>x\<in>set (map fst (word_counts rs)). first_seen (?ks @ [?k]) x < first_seen (?ks @ [?k]) ?k"
    proof
      fix x
      assume "x \<in> set (map fst (word_counts rs))"
      then have "x \<in> set ?ks" using keys_word_counts[of rs] by simp
      then show "first_seen (?ks @ [?k]) x < first_seen (?ks @ [?k]) ?k"
        using new by (simp add: first_seen_append first_seen_new first_seen_less[of x ?ks, simplified])
    qed
    with False old show ?thesis
      unfolding word_counts_snoc keys_obj_set by (simp add: sorted_wrt_append)
  qed
qed

lemma word_cloud_data_length: "length (word_cloud_data rs) \<le> 10"
  by (simp add: word_cloud_data_def)

lemma word_cloud_data_descending:
  "sorted_wrt (\<lambda>a b. count b \<le> count a) (word_cloud_data rs)"
  unfolding word_cloud_data_def by (rule sorted_wrt_take) (rule sort_by_descending)

lemma word_cloud_data_ties:
  "sorted_wrt (\<lambda>a b. count a = count b \<longrightarrow> own_key_before (map to_key rs) (word a) (word b))
     (word_cloud_data rs)"
proof -
  let ?E = "object_entries (word_counts rs)"
  let ?mk = "\<lambda>(w, c). \<lparr>word = w, count = c\<rparr>"
  let ?P = "\<lambda>a b. own_key_before (map to_key rs) (word a) (word b)"
  have "sorted_wrt (own_key_before (map to_key rs)) (map fst ?E)"
    by (rule object_entries_order) (rule word_counts_first_seen, rule distinct_word_counts)
  then have "sorted_wrt ?P (map ?mk ?E)"
    by (simp add: sorted_wrt_map case_prod_unfold)
  then have "sorted_wrt (\<lambda>a b. cmp_count b a \<le> 0 \<longrightarrow> ?P a b) (sort_by cmp_count (map ?mk ?E))"
    by (rule sort_by_stable)
  then have "sorted_wrt (\<lambda>a b. count a = count b \<longrightarrow> ?P a b) (sort_by cmp_count (map ?mk ?E))"
    by (rule sorted_wrt_mono_rel[rotated]) (simp add: cmp_count_def)
  then show ?thesis
    unfolding word_cloud_data_def by (rule sorted_wrt_take)
qed

lemma word_cloud_data_counts:
  assumes "e \<in> set (word_cloud_data rs)"
  shows "count e = length (filter (\<lambda>r. to_key r = word e) rs) \<and> word e \<in> to_key ` set rs"
proof -
  from assms have "e \<in> set (sort_by cmp_count
      (map (\<lambda>(w, c). \<lparr>word = w, count = c\<rparr>) (object_entries (word_counts rs))))"
    unfolding word_cloud_data_def by (rule in_set_takeD)
  then have "(word e, count e) \<in> set (word_counts rs)"
    by (auto simp: set_sort_by set_object_entries)
  then have "map_of (word_counts rs) (word e) = Some (count e)"
    using distinct_word_counts by simp
  then show ?thesis
    by (auto simp: map_of_word_counts split: if_splits)
qed

section \<open>Counting for the charts\<close>

lemma chart_counts_multiple_choice_snoc:
  "chart_counts_multiple_choice (opts @ [x]) rs =
     obj_assign_number (chart_counts_multiple_choice opts rs) x
       (length (filter (\<lambda>r. r = Text x) rs))"
  by (simp add: chart_counts_multiple_choice_def)

lemma map_of_chart_counts_multiple_choice:
  "map_of (chart_counts_multiple_choice opts rs) k =
     (if k \<in> set opts \<and> k \<noteq> ''__proto__''
      then Some (length (filter (\<lambda>r. r = Text k) rs)) else None)"
proof (induction opts arbitrary: k rule: rev_induct)
  case Nil
  show ?case by (simp add: chart_counts_multiple_choice_def)
next
  case (snoc x opts)
  show ?case
    unfolding chart_counts_multiple_choice_snoc obj_assign_number_def
    using snoc by (simp add: map_of_obj_set)
qed

lemma keys_chart_counts_multiple_choice:
  "fst ` set (chart_counts_multiple_choice opts rs) = set opts - {''__proto__''}"
proof -
  have "fst ` set (chart_counts_multiple_choice opts rs)
          = dom (map_of (chart_counts_multiple_choice opts rs))"
    by (simp add: dom_map_of_conv_image_fst)
  also have "\<dots> = set opts - {''__proto__''}"
    by (auto simp: map_of_chart_counts_multiple_choice dom_def)
  finally show ?thesis .
qed

lemma length_filter_disj:
  "\<not> P x \<Longrightarrow> length (filter (\<lambda>r. P r \<or> r = x) rs)
     = length (filter P rs) + length (filter (\<lambda>r. r = x) rs)"
  by (induction rs) auto

lemma sum_chart_counts_multiple_choice:
  "sum_list (map snd (chart_counts_multiple_choice opts rs))
     = length (filter (\<lambda>r. r \<in> Text ` (set opts - {''__proto__''})) rs)"
proof (induction opts rule: rev_induct)
  case Nil
  show ?case by (simp add: chart_counts_multiple_choice_def)
next
  case (snoc x opts)
  let ?obj = "chart_counts_multiple_choice opts rs"
  let ?n = "length (filter (\<lambda>r. r = Text x) rs)"
  let ?live = "set opts - {''__proto__''}"
  consider (proto) "x = ''__proto__''"
    | (seen) "x \<noteq> ''__proto__''" "x \<in> set opts"
    | (new) "x \<noteq> ''__proto__''" "x \<notin> set opts"
    by blast
  then show ?case
  proof cases
    case proto
    then have "set (opts @ [x]) - {''__proto__''} = ?live"
      by auto
    with proto snoc show ?thesis
      unfolding chart_counts_multiple_choice_snoc obj_assign_number_def by simp
  next
    case seen
    then have "map_of ?obj x = Some ?n"
      by (simp add: map_of_chart_counts_multiple_choice)
    then have "obj_set ?obj x ?n = ?obj"
      by (rule obj_set_same)
    moreover from seen have "set (opts @ [x]) - {''__proto__''} = ?live"
      by auto
    ultimately show ?thesis
      unfolding chart_counts_multiple_choice_snoc obj_assign_number_def
      using seen(1) snoc by simp
  next
    case new
    then have "obj_set ?obj x ?n = ?obj @ [(x, ?n)]"
      by (simp add: obj_set_new keys_chart_counts_multiple_choice)
    moreover from new have "set (opts @ [x]) - {''__proto__''} = insert x ?live"
      by auto
    moreover have "length (filter (\<lambda>r. r \<in> Text ` insert x ?live) rs)
        = length (filter (\<lambda>r. r \<in> Text ` ?live) rs) + ?n"
      using length_filter_disj[of "\<lambda>r. r \<in> Text ` ?live" "Text x" rs] new
      by (auto simp: disj_commute intro!: arg_cong[where f=length] filter_cong)
    ultimately show ?thesis
      unfolding chart_counts_multiple_choice_snoc obj_assign_number_def
      using new(1) snoc by simp
  qed
qed

lemma chart_data_multiple_choice:
  assumes "question_type q = multiple_choice"
  shows "sum_list (map val (chart_data q rs))
           = length (filter (\<lambda>r. r \<in> Text ` (set (declared_options q) - {''__proto__''})) rs)"
    and "set (map name (chart_data q rs)) = set (declared_options q) - {''__proto__''}"
proof -
  let ?obj = "chart_counts_multiple_choice (declared_options q) rs"
  have "sum_list (map val (chart_data q rs)) = sum_list (map snd (object_entries ?obj))"
    using assms by (simp add: chart_data_def comp_def case_prod_unfold)
  then show "sum_list (map val (chart_data q rs))
           = length (filter (\<lambda>r. r \<in> Text ` (set (declared_options q) - {''__proto__''})) rs)"
    by (simp add: sum_list_object_entries sum_chart_counts_multiple_choice)
  have "set (map name (chart_data q rs)) = fst ` set (object_entries ?obj)"
    using assms by (simp add: chart_data_def comp_def case_prod_unfold)
  then show "set (map name (chart_data q rs)) = set (declared_options q) - {''__proto__''}"
    by (simp add: set_object_entries keys_chart_counts_multiple_choice)
qed

lemma chart_counts_rating_eq:
  "chart_counts_rating rs
     = map (\<lambda>i. (number_key i, length (filter (\<lambda>r. r = Number i) rs))) [1..10]"
  unfolding upto_one_to_ten
  by (simp add: chart_counts_rating_def upto_one_to_ten number_key_one_to_ten)

lemma object_entries_rating:
  "object_entries (chart_counts_rating rs) = chart_counts_rating rs"
  unfolding chart_counts_rating_eq upto_one_to_ten
  by (simp add: number_key_one_to_ten object_entries_def is_array_index_def is_digit_def
      index_value_def)

lemma chart_data_rating:
  assumes "question_type q = rating"
  shows "chart_data q rs
     = map (\<lambda>i. \<lparr>name = number_key i, val = length (filter (\<lambda>r. r = Number i) rs)\<rparr>) [1..10]"
  using assms
  by (simp add: chart_data_def object_entries_rating) (simp add: chart_counts_rating_eq)

section \<open>The response map\<close>

lemma obj_get_push_response:
  "obj_get (push_response obj r) k =
     (if k = question_id r
      then Some ((case obj_get obj k of None \<Rightarrow> [] | Some a \<Rightarrow> a) @ [response_data r])
      else obj_get obj k)"
  by (auto simp: push_response_def obj_get_def map_of_obj_set)

lemma push_response_cases:
  "push_response obj r =
     (case map_of obj (question_id r) of
        None \<Rightarrow> obj @ [(question_id r, [response_data r])]
      | Some a \<Rightarrow> obj_set obj (question_id r) (a @ [response_data r]))"
proof (cases "map_of obj (question_id r)")
  case None
  then have fresh: "question_id r \<notin> fst ` set obj"
    by (simp add: map_of_eq_None_iff)
  have "push_response obj r
      = obj_set (obj_set obj (question_id r) []) (question_id r) [response_data r]"
    using None by (simp add: push_response_def obj_get_def map_of_obj_set)
  also have "obj_set obj (question_id r) [] = obj @ [(question_id r, [])]"
    using fresh by (rule obj_set_new)
  also have "obj_set (obj @ [(question_id r, [])]) (question_id r) [response_data r]
      = obj @ [(question_id r, [response_data r])]"
    using fresh by (induction obj) auto
  finally show ?thesis
    using None by simp
next
  case (Some a)
  then show ?thesis by (simp add: push_response_def obj_get_def)
qed

lemma sum_lengths_obj_set:
  "map_of obj k = Some a \<Longrightarrow>
   sum_list (map (\<lambda>kv. length (snd kv)) (obj_set obj k (a @ [v])))
     = Suc (sum_list (map (\<lambda>kv. length (snd kv)) obj))"
  by (induction obj) (auto split: if_splits)

lemma sum_lengths_push_response:
  "sum_list (map (\<lambda>kv. length (snd kv)) (push_response obj r))
     = Suc (sum_list (map (\<lambda>kv. length (snd kv)) obj))"
  by (cases "map_of obj (question_id r)")
     (simp_all add: push_response_cases sum_lengths_obj_set)

lemma sum_lengths_grouped:
  "sum_list (map (\<lambda>kv. length (snd kv)) (foldl push_response obj data))
     = sum_list (map (\<lambda>kv. length (snd kv)) obj) + length data"
  by (induction data arbitrary: obj) (simp_all add: sum_lengths_push_response)

lemma currentQuestion_insert [simp]:
  "currentQuestion (on_response_insert s r) = currentQuestion s"
  by (simp add: currentQuestion_def on_response_insert_def)

lemma questionResponses_insert:
  "questionResponses (on_response_insert s r) q =
     (if q_id q = question_id r then questionResponses s q @ [response_data r]
      else questionResponses s q)"
  by (simp add: questionResponses_def on_response_insert_def obj_get_push_response)

lemma participantCount_insert [simp]:
  "participantCount (on_response_insert s r) = participantCount s + 1"
  by (simp add: on_response_insert_def)

lemma total_responses_insert:
  "total_responses (on_response_insert s r) = total_responses s + 1"
  by (simp add: total_responses_def on_response_insert_def sum_lengths_push_response)

lemma currentQuestion_inserts:
  "currentQuestion (foldl on_response_insert s rows) = currentQuestion s"
  by (induction rows arbitrary: s) simp_all

lemma questionResponses_inserts:
  "questionResponses (foldl on_response_insert s rows) q
     = questionResponses s q @ map response_data (filter (\<lambda>r. question_id r = q_id q) rows)"
  by (induction rows arbitrary: s) (auto simp: questionResponses_insert)

lemma participantCount_inserts:
  "participantCount (foldl on_response_insert s rows) = participantCount s + length rows"
  by (induction rows arbitrary: s) simp_all

lemma total_responses_inserts:
  "total_responses (foldl on_response_insert s rows) = total_responses s + length rows"
  by (induction rows arbitrary: s) (simp_all add: total_responses_insert)

lemma current_responses_inserts:
  assumes "currentQuestion s = Some q"
  shows "current_responses (foldl on_response_insert s rows)
           = current_responses s
             @ map response_data (filter (\<lambda>r. question_id r = q_id q) rows)"
  using assms
  by (simp add: current_responses_def currentQuestion_inserts questionResponses_inserts)

section \<open>Unfolding rules for concrete runs\<close>

lemmas presenter_eval =
  initial_presenter_def setQuestions_def on_response_insert_def push_response_def obj_get_def
  currentQuestion_def questionResponses_def

lemmas word_cloud_eval =
  getWordCloudData_def word_cloud_data_def word_counts_def object_entries_def
  is_array_index_def is_digit_def index_value_def sort_by_def cmp_count_def

lemmas key_eval = plain_key_def object_prototype_keys_def own_key_before_def first_seen_def

lemmas chart_eval =
  getChartData_def chart_data_def declared_options_def chart_counts_multiple_choice_def
  obj_assign_number_def
  object_entries_def is_array_index_def is_digit_def index_value_def

section \<open>Word cloud\<close>

text \<open>
  C1, as stated, at the responses "Fun", "fun", "great": the claimed aggregate, with "Fun"
  and "fun" merged into one entry of count 2, is not what \<open>getWordCloudData\<close> returns.
\<close>

theorem word_cloud_case_variants_not_merged:
  "getWordCloudData
     (foldl on_response_insert
        (setQuestions initial_presenter
           [\<lparr>q_id = ''q1'', question_type = word_cloud, question_text = ''One word?'',
             options = None, order_index = 0\<rparr>])
        [\<lparr>question_id = ''q1'', response_data = Text ''Fun''\<rparr>,
         \<lparr>question_id = ''q1'', response_data = Text ''fun''\<rparr>,
         \<lparr>question_id = ''q1'', response_data = Text ''great''\<rparr>])
   \<noteq> [\<lparr>word = ''fun'', count = 2\<rparr>, \<lparr>word = ''great'', count = 1\<rparr>]"
  by (simp add: presenter_eval word_cloud_eval)

text \<open>
  C1, amended: \<open>getWordCloudData\<close> counts the responses by their exact property key,
  with neither lower-casing nor trimming. Every entry's count is the number of responses
  with exactly that key, and the responses "Fun", "fun", "great" give three entries of
  count 1. The general part is stated for responses whose keys are plain keys.
\<close>

theorem word_cloud_counts_exact_keys:
  assumes "currentQuestion s = Some q"
    and "list_all (\<lambda>r. plain_key (to_key r)) (questionResponses s q)"
  shows "list_all (\<lambda>e. count e = length (filter (\<lambda>r. to_key r = word e) (questionResponses s q))
                      \<and> word e \<in> to_key ` set (questionResponses s q))
           (getWordCloudData s)
         \<and> word_cloud_data [Text ''Fun'', Text ''fun'', Text ''great'']
             = [\<lparr>word = ''Fun'', count = 1\<rparr>, \<lparr>word = ''fun'', count = 1\<rparr>,
                \<lparr>word = ''great'', count = 1\<rparr>]"
proof
  show "list_all (\<lambda>e. count e = length (filter (\<lambda>r. to_key r = word e) (questionResponses s q))
                      \<and> word e \<in> to_key ` set (questionResponses s q))
           (getWordCloudData s)"
    using assms(1) word_cloud_data_counts[of _ "questionResponses s q"]
    by (simp add: getWordCloudData_def list_all_iff)
  show "word_cloud_data [Text ''Fun'', Text ''fun'', Text ''great'']
          = [\<lparr>word = ''Fun'', count = 1\<rparr>, \<lparr>word = ''fun'', count = 1\<rparr>,
             \<lparr>word = ''great'', count = 1\<rparr>]"
    by (simp add: presenter_eval word_cloud_eval)
qed

text \<open>C1, an instance: case and a leading blank keep three responses apart.\<close>

theorem word_cloud_counts_exact_keys_witness:
  "list_all (\<lambda>e. count e = 1)
     (getWordCloudData
        \<lparr>currentQuestionIndex = 0,
         responses = [(''q1'', [Text ''Fun'', Text ''fun'', Text '' fun''])],
         participantCount = 3,
         questions = [\<lparr>q_id = ''q1'', question_type = word_cloud, question_text = ''One word?'',
                       options = None, order_index = 0\<rparr>]\<rparr>)
   \<and> getWordCloudData
        \<lparr>currentQuestionIndex = 0,
         responses = [(''q1'', [Text ''Fun'', Text ''fun'', Text '' fun''])],
         participantCount = 3,
         questions = [\<lparr>q_id = ''q1'', question_type = word_cloud, question_text = ''One word?'',
                       options = None, order_index = 0\<rparr>]\<rparr>
      = [\<lparr>word = ''Fun'', count = 1\<rparr>, \<lparr>word = ''fun'', count = 1\<rparr>,
         \<lparr>word = '' fun'', count = 1\<rparr>]"
proof -
  let ?q = "\<lparr>q_id = ''q1'', question_type = word_cloud, question_text = ''One word?'',
             options = None, order_index = 0\<rparr>"
  let ?s = "\<lparr>currentQuestionIndex = 0,
             responses = [(''q1'', [Text ''Fun'', Text ''fun'', Text '' fun''])],
             participantCount = 3, questions = [?q]\<rparr>"
  have cur: "currentQuestion ?s = Some ?q"
    by (simp add: presenter_eval)
  have plain: "list_all (\<lambda>r. plain_key (to_key r)) (questionResponses ?s ?q)"
    by (simp add: presenter_eval key_eval)
  have val: "getWordCloudData ?s
      = [\<lparr>word = ''Fun'', count = 1\<rparr>, \<lparr>word = ''fun'', count = 1\<rparr>,
         \<lparr>word = '' fun'', count = 1\<rparr>]"
    by (simp add: presenter_eval word_cloud_eval)
  from word_cloud_counts_exact_keys[OF cur plain] val show ?thesis
    by (simp add: presenter_eval)
qed

text \<open>
  C2, as stated, at the responses "b", "1": both entries have count 1 and "b" was seen
  first, yet "1" is listed first, because \<open>Object.entries\<close> puts array-index keys
  before all other keys.
\<close>

theorem word_cloud_tie_not_first_seen:
  "getWordCloudData
     (foldl on_response_insert
        (setQuestions initial_presenter
           [\<lparr>q_id = ''q1'', question_type = word_cloud, question_text = ''One word?'',
             options = None, order_index = 0\<rparr>])
        [\<lparr>question_id = ''q1'', response_data = Text ''b''\<rparr>,
         \<lparr>question_id = ''q1'', response_data = Text ''1''\<rparr>])
   = [\<lparr>word = ''1'', count = 1\<rparr>, \<lparr>word = ''b'', count = 1\<rparr>]
   \<and> first_seen [''b'', ''1''] ''b'' < first_seen [''b'', ''1''] ''1''"
  by (simp add: presenter_eval word_cloud_eval key_eval)

text \<open>
  C2, amended: the word-cloud aggregate has at most 10 entries and is sorted by
  descending count; entries of equal count follow the own-key order of the counting
  object: array-index tokens first, in ascending numeric order, then the other tokens in
  first-seen order. The statement is for responses whose keys are plain keys.
\<close>

theorem word_cloud_top_ten_order:
  assumes "currentQuestion s = Some q"
    and "list_all (\<lambda>r. plain_key (to_key r)) (questionResponses s q)"
  shows "length (getWordCloudData s) \<le> 10
         \<and> sorted_wrt (\<lambda>a b. count b \<le> count a) (getWordCloudData s)
         \<and> sorted_wrt (\<lambda>a b. count a = count b \<longrightarrow>
                own_key_before (map to_key (questionResponses s q)) (word a) (word b))
             (getWordCloudData s)"
  using assms(1)
  by (simp add: getWordCloudData_def word_cloud_data_length word_cloud_data_descending
      word_cloud_data_ties)

text \<open>C2, an instance with a tie between an array-index token and a word.\<close>

theorem word_cloud_top_ten_order_witness:
  "getWordCloudData
     \<lparr>currentQuestionIndex = 0,
      responses = [(''q1'', [Text ''b'', Text ''1'', Text ''a'', Text ''a''])],
      participantCount = 4,
      questions = [\<lparr>q_id = ''q1'', question_type = word_cloud, question_text = ''One word?'',
                    options = None, order_index = 0\<rparr>]\<rparr>
   = [\<lparr>word = ''a'', count = 2\<rparr>, \<lparr>word = ''1'', count = 1\<rparr>, \<lparr>word = ''b'', count = 1\<rparr>]
   \<and> sorted_wrt (\<lambda>a b. count b \<le> count a)
        (getWordCloudData
           \<lparr>currentQuestionIndex = 0,
            responses = [(''q1'', [Text ''b'', Text ''1'', Text ''a'', Text ''a''])],
            participantCount = 4,
            questions = [\<lparr>q_id = ''q1'', question_type = word_cloud,
                          question_text = ''One word?'', options = None, order_index = 0\<rparr>]\<rparr>)"
proof -
  let ?q = "\<lparr>q_id = ''q1'', question_type = word_cloud, question_text = ''One word?'',
             options = None, order_index = 0\<rparr>"
  let ?s = "\<lparr>currentQuestionIndex = 0,
             responses = [(''q1'', [Text ''b'', Text ''1'', Text ''a'', Text ''a''])],
             participantCount = 4, questions = [?q]\<rparr>"
  have cur: "currentQuestion ?s = Some ?q"
    by (simp add: presenter_eval)
  have plain: "list_all (\<lambda>r. plain_key (to_key r)) (questionResponses ?s ?q)"
    by (simp add: presenter_eval key_eval)
  have val: "getWordCloudData ?s
      = [\<lparr>word = ''a'', count = 2\<rparr>, \<lparr>word = ''1'', count = 1\<rparr>, \<lparr>word = ''b'', count = 1\<rparr>]"
    by (simp add: presenter_eval word_cloud_eval)
  from word_cloud_top_ten_order[OF cur plain] have
    "sorted_wrt (\<lambda>a b. count b \<le> count a) (getWordCloudData ?s)"
    by blast
  with val show ?thesis by blast
qed

section \<open>Responses for a question that is not displayed\<close>

text \<open>
  C3, as stated, at a presentation of two multiple-choice questions showing the first:
  a response to the second question is not rejected. It is filed under the second
  question and counted, and the chart of the second question, shown after
  \<open>nextQuestion\<close>, has changed.
\<close>

theorem stale_response_is_stored:
  "questionResponses
     (on_response_insert
        (setQuestions initial_presenter
           [\<lparr>q_id = ''q1'', question_type = multiple_choice, question_text = ''First'',
             options = Some [''A'', ''B''], order_index = 0\<rparr>,
            \<lparr>q_id = ''q2'', question_type = multiple_choice, question_text = ''Second'',
             options = Some [''A'', ''B''], order_index = 1\<rparr>])
        \<lparr>question_id = ''q2'', response_data = Text ''A''\<rparr>)
     \<lparr>q_id = ''q2'', question_type = multiple_choice, question_text = ''Second'',
      options = Some [''A'', ''B''], order_index = 1\<rparr>
   = [Text ''A'']
   \<and> getChartData
       (nextQuestion
          (setQuestions initial_presenter
             [\<lparr>q_id = ''q1'', question_type = multiple_choice, question_text = ''First'',
               options = Some [''A'', ''B''], order_index = 0\<rparr>,
              \<lparr>q_id = ''q2'', question_type = multiple_choice, question_text = ''Second'',
               options = Some [''A'', ''B''], order_index = 1\<rparr>]))
     = [\<lparr>name = ''A'', val = 0\<rparr>, \<lparr>name = ''B'', val = 0\<rparr>]
   \<and> getChartData
       (nextQuestion
          (on_response_insert
             (setQuestions initial_presenter
                [\<lparr>q_id = ''q1'', question_type = multiple_choice, question_text = ''First'',
                  options = Some [''A'', ''B''], order_index = 0\<rparr>,
                 \<lparr>q_id = ''q2'', question_type = multiple_choice, question_text = ''Second'',
                  options = Some [''A'', ''B''], order_index = 1\<rparr>])
             \<lparr>question_id = ''q2'', response_data = Text ''A''\<rparr>))
     = [\<lparr>name = ''A'', val = 1\<rparr>, \<lparr>name = ''B'', val = 0\<rparr>]"
  by (simp add: presenter_eval chart_eval nextQuestion_def)

text \<open>
  C3, amended: no check compares a response's question with the current question, and
  nothing is rejected. A response received for another question leaves the current
  question, its response list and its displayed aggregate (chart, word cloud, open-ended
  list) as they are; it is appended to the response list of its own question and raises
  the participant count by one.
\<close>

theorem response_to_other_question:
  assumes "currentQuestion s = Some q" and "question_id r \<noteq> q_id q"
  shows "currentQuestion (on_response_insert s r) = Some q
         \<and> questionResponses (on_response_insert s r) q = questionResponses s q
         \<and> getChartData (on_response_insert s r) = getChartData s
         \<and> getWordCloudData (on_response_insert s r) = getWordCloudData s
         \<and> current_responses (on_response_insert s r) = current_responses s
         \<and> obj_get (responses (on_response_insert s r)) (question_id r)
             = Some ((case obj_get (responses s) (question_id r) of None \<Rightarrow> [] | Some a \<Rightarrow> a)
                     @ [response_data r])
         \<and> participantCount (on_response_insert s r) = participantCount s + 1"
proof -
  have same: "questionResponses (on_response_insert s r) q = questionResponses s q"
    using assms(2) by (simp add: questionResponses_insert)
  have "obj_get (responses (on_response_insert s r)) (question_id r)
          = Some ((case obj_get (responses s) (question_id r) of None \<Rightarrow> [] | Some a \<Rightarrow> a)
                  @ [response_data r])"
    by (simp add: on_response_insert_def obj_get_push_response)
  with same assms(1) show ?thesis
    by (simp add: getChartData_def getWordCloudData_def current_responses_def)
qed

text \<open>C3, an instance: the first of two questions is shown, the response is for the second.\<close>

theorem response_to_other_question_witness:
  "getChartData
     (on_response_insert
        \<lparr>currentQuestionIndex = 0, responses = [(''q1'', [Text ''B''])], participantCount = 1,
         questions =
           [\<lparr>q_id = ''q1'', question_type = multiple_choice, question_text = ''First'',
             options = Some [''A'', ''B''], order_index = 0\<rparr>,
            \<lparr>q_id = ''q2'', question_type = multiple_choice, question_text = ''Second'',
             options = Some [''A'', ''B''], order_index = 1\<rparr>]\<rparr>
        \<lparr>question_id = ''q2'', response_data = Text ''A''\<rparr>)
   = [\<lparr>name = ''A'', val = 0\<rparr>, \<lparr>name = ''B'', val = 1\<rparr>]
   \<and> participantCount
       (on_response_insert
          \<lparr>currentQuestionIndex = 0, responses = [(''q1'', [Text ''B''])], participantCount = 1,
           questions =
             [\<lparr>q_id = ''q1'', question_type = multiple_choice, question_text = ''First'',
               options = Some [''A'', ''B''], order_index = 0\<rparr>,
              \<lparr>q_id = ''q2'', question_type = multiple_choice, question_text = ''Second'',
               options = Some [''A'', ''B''], order_index = 1\<rparr>]\<rparr>
          \<lparr>question_id = ''q2'', response_data = Text ''A''\<rparr>) = 2"
proof -
  let ?q1 = "\<lparr>q_id = ''q1'', question_type = multiple_choice, question_text = ''First'',
              options = Some [''A'', ''B''], order_index = 0\<rparr>"
  let ?q2 = "\<lparr>q_id = ''q2'', question_type = multiple_choice, question_text = ''Second'',
              options = Some [''A'', ''B''], order_index = 1\<rparr>"
  let ?s = "\<lparr>currentQuestionIndex = 0, responses = [(''q1'', [Text ''B''])],
             participantCount = 1, questions = [?q1, ?q2]\<rparr>"
  let ?r = "\<lparr>question_id = ''q2'', response_data = Text ''A''\<rparr>"
  have cur: "currentQuestion ?s = Some ?q1"
    by (simp add: presenter_eval)
  have other: "question_id ?r \<noteq> q_id ?q1"
    by simp
  have before: "getChartData ?s = [\<lparr>name = ''A'', val = 0\<rparr>, \<lparr>name = ''B'', val = 1\<rparr>]"
    by (simp add: presenter_eval chart_eval)
  from response_to_other_question[OF cur other]
  have "getChartData (on_response_insert ?s ?r) = getChartData ?s"
    and "participantCount (on_response_insert ?s ?r) = participantCount ?s + 1"
    by blast+
  with before show ?thesis by simp
qed

section \<open>Rating\<close>

text \<open>
  C4: for a rating question the chart has one entry for each integer 1 to 10, in this
  order, holding the number of responses equal to that integer; the responses 7, 3, 7
  give 2 for 7, 1 for 3 and 0 for every other value.
\<close>

theorem rating_chart_one_to_ten:
  assumes "currentQuestion s = Some q" and "question_type q = rating"
  shows "getChartData s
           = map (\<lambda>i. \<lparr>name = number_key i,
                         val = length (filter (\<lambda>r. r = Number i) (questionResponses s q))\<rparr>)
               [1..10]
         \<and> chart_data q [Number 7, Number 3, Number 7]
           = [\<lparr>name = ''1'', val = 0\<rparr>, \<lparr>name = ''2'', val = 0\<rparr>, \<lparr>name = ''3'', val = 1\<rparr>,
              \<lparr>name = ''4'', val = 0\<rparr>, \<lparr>name = ''5'', val = 0\<rparr>, \<lparr>name = ''6'', val = 0\<rparr>,
              \<lparr>name = ''7'', val = 2\<rparr>, \<lparr>name = ''8'', val = 0\<rparr>, \<lparr>name = ''9'', val = 0\<rparr>,
              \<lparr>name = ''10'', val = 0\<rparr>]"
  using assms
  by (simp add: getChartData_def chart_data_rating)
     (simp add: upto_one_to_ten number_key_one_to_ten)

text \<open>
  C4, the scenario: one rating question, and the responses 7, 3, 7 received in this order
  through the realtime callback.
\<close>

theorem rating_chart_one_to_ten_witness:
  "getChartData
     (foldl on_response_insert
        (setQuestions initial_presenter
           [\<lparr>q_id = ''r1'', question_type = rating, question_text = ''How was it?'',
             options = None, order_index = 0\<rparr>])
        [\<lparr>question_id = ''r1'', response_data = Number 7\<rparr>,
         \<lparr>question_id = ''r1'', response_data = Number 3\<rparr>,
         \<lparr>question_id = ''r1'', response_data = Number 7\<rparr>])
   = [\<lparr>name = ''1'', val = 0\<rparr>, \<lparr>name = ''2'', val = 0\<rparr>, \<lparr>name = ''3'', val = 1\<rparr>,
      \<lparr>name = ''4'', val = 0\<rparr>, \<lparr>name = ''5'', val = 0\<rparr>, \<lparr>name = ''6'', val = 0\<rparr>,
      \<lparr>name = ''7'', val = 2\<rparr>, \<lparr>name = ''8'', val = 0\<rparr>, \<lparr>name = ''9'', val = 0\<rparr>,
      \<lparr>name = ''10'', val = 0\<rparr>]"
proof -
  let ?q = "\<lparr>q_id = ''r1'', question_type = rating, question_text = ''How was it?'',
             options = None, order_index = 0\<rparr>"
  let ?s = "foldl on_response_insert (setQuestions initial_presenter [?q])
        [\<lparr>question_id = ''r1'', response_data = Number 7\<rparr>,
         \<lparr>question_id = ''r1'', response_data = Number 3\<rparr>,
         \<lparr>question_id = ''r1'', response_data = Number 7\<rparr>]"
  have cur: "currentQuestion ?s = Some ?q"
    by (simp add: presenter_eval)
  have kind: "question_type ?q = rating"
    by simp
  have rs: "questionResponses ?s ?q = [Number 7, Number 3, Number 7]"
    by (simp add: presenter_eval)
  from rating_chart_one_to_ten[OF cur kind] show ?thesis
    unfolding rs by (simp add: upto_one_to_ten number_key_one_to_ten)
qed

section \<open>Multiple choice\<close>

text \<open>
  C5, at the failing input: a multiple-choice question with the declared options
  \<open>__proto__\<close> and A, and one response for each option received through the realtime
  callback. Both responses are declared options and both are stored, but the chart has the
  single entry A with count 1: the counts add up to 1 for 2 responses, and the response for
  \<open>__proto__\<close> is left out without any rejection.
\<close>

theorem multiple_choice_proto_option_dropped:
  "getChartData
     (foldl on_response_insert
        (setQuestions initial_presenter
           [\<lparr>q_id = ''m1'', question_type = multiple_choice, question_text = ''Which?'',
             options = Some [''__proto__'', ''A''], order_index = 0\<rparr>])
        [\<lparr>question_id = ''m1'', response_data = Text ''__proto__''\<rparr>,
         \<lparr>question_id = ''m1'', response_data = Text ''A''\<rparr>])
   = [\<lparr>name = ''A'', val = 1\<rparr>]
   \<and> current_responses
       (foldl on_response_insert
          (setQuestions initial_presenter
             [\<lparr>q_id = ''m1'', question_type = multiple_choice, question_text = ''Which?'',
               options = Some [''__proto__'', ''A''], order_index = 0\<rparr>])
          [\<lparr>question_id = ''m1'', response_data = Text ''__proto__''\<rparr>,
           \<lparr>question_id = ''m1'', response_data = Text ''A''\<rparr>])
     = [Text ''__proto__'', Text ''A'']
   \<and> sum_list (map val
        (getChartData
           (foldl on_response_insert
              (setQuestions initial_presenter
                 [\<lparr>q_id = ''m1'', question_type = multiple_choice, question_text = ''Which?'',
                   options = Some [''__proto__'', ''A''], order_index = 0\<rparr>])
              [\<lparr>question_id = ''m1'', response_data = Text ''__proto__''\<rparr>,
               \<lparr>question_id = ''m1'', response_data = Text ''A''\<rparr>])))
     = 1
   \<and> responses_received
       (foldl on_response_insert
          (setQuestions initial_presenter
             [\<lparr>q_id = ''m1'', question_type = multiple_choice, question_text = ''Which?'',
               options = Some [''__proto__'', ''A''], order_index = 0\<rparr>])
          [\<lparr>question_id = ''m1'', response_data = Text ''__proto__''\<rparr>,
           \<lparr>question_id = ''m1'', response_data = Text ''A''\<rparr>])
     = 2"
  by (simp add: presenter_eval chart_eval current_responses_def responses_received_def)

text \<open>
  For every other question the counts do add up. When no declared option is
  \<open>__proto__\<close>, the question on display has no responses yet, and every event is a
  response to it with a declared option as its value, then after the events the counts
  of the chart add up to the number of events and the names of the chart are the declared
  options, also when an option is declared twice.
\<close>

lemma multiple_choice_counts_add_up:
  assumes "currentQuestion s = Some q" and "question_type q = multiple_choice"
    and "''__proto__'' \<notin> set (declared_options q)"
    and "questionResponses s q = []"
    and "list_all (\<lambda>r. question_id r = q_id q
                      \<and> response_data r \<in> Text ` set (declared_options q)) rows"
  shows "sum_list (map val (getChartData (foldl on_response_insert s rows))) = length rows
         \<and> set (map name (getChartData (foldl on_response_insert s rows)))
             = set (declared_options q)"
proof -
  let ?s' = "foldl on_response_insert s rows"
  from assms(5) have mine: "filter (\<lambda>r. question_id r = q_id q) rows = rows"
    by (simp add: list_all_iff)
  have stored: "questionResponses ?s' q = map response_data rows"
    by (simp add: questionResponses_inserts assms(4) mine)
  have live: "set (declared_options q) - {''__proto__''} = set (declared_options q)"
    using assms(3) by simp
  from assms(5) have "filter (\<lambda>v. v \<in> Text ` set (declared_options q)) (map response_data rows)
      = map response_data rows"
    by (simp add: list_all_iff)
  then have counted: "length (filter (\<lambda>v. v \<in> Text ` set (declared_options q))
      (questionResponses ?s' q)) = length rows"
    by (simp add: stored)
  have chart: "getChartData ?s' = chart_data q (questionResponses ?s' q)"
    using assms(1) by (simp add: getChartData_def currentQuestion_inserts)
  show ?thesis
    using chart_data_multiple_choice[OF assms(2), of "questionResponses ?s' q"] counted
    unfolding chart live by simp
qed

section \<open>Navigation\<close>

lemma nextQuestion_moves:
  "currentQuestionIndex s + 1 < length (questions s) \<Longrightarrow>
   nextQuestion s = s\<lparr>currentQuestionIndex := currentQuestionIndex s + 1\<rparr>"
  by (simp add: nextQuestion_def)

lemma prevQuestion_moves:
  "0 < currentQuestionIndex s \<Longrightarrow>
   prevQuestion s = s\<lparr>currentQuestionIndex := currentQuestionIndex s - 1\<rparr>"
  by (simp add: prevQuestion_def)

text \<open>
  C6: with a non-empty question list, \<open>nextQuestion\<close> at the last index and
  \<open>prevQuestion\<close> at index 0 return the state as it is: \<open>setCurrentQuestionIndex\<close> is
  not called, so the index and the displayed question stay, and nothing fails.
\<close>

theorem navigation_noop_at_boundaries:
  assumes "questions s \<noteq> []"
  shows "(currentQuestionIndex s = length (questions s) - 1 \<longrightarrow> nextQuestion s = s)
         \<and> (currentQuestionIndex s = 0 \<longrightarrow> prevQuestion s = s)"
  using assms by (cases "questions s") (auto simp: nextQuestion_def prevQuestion_def)

text \<open>C6, an instance: two questions, next at index 1 and previous at index 0.\<close>

theorem navigation_noop_at_boundaries_witness:
  "nextQuestion
     \<lparr>currentQuestionIndex = 1, responses = [], participantCount = 0,
      questions = [\<lparr>q_id = ''a'', question_type = rating, question_text = ''One'',
                    options = None, order_index = 0\<rparr>,
                   \<lparr>q_id = ''b'', question_type = open_ended, question_text = ''Two'',
                    options = None, order_index = 1\<rparr>]\<rparr>
   = \<lparr>currentQuestionIndex = 1, responses = [], participantCount = 0,
      questions = [\<lparr>q_id = ''a'', question_type = rating, question_text = ''One'',
                    options = None, order_index = 0\<rparr>,
                   \<lparr>q_id = ''b'', question_type = open_ended, question_text = ''Two'',
                    options = None, order_index = 1\<rparr>]\<rparr>
   \<and> prevQuestion
     \<lparr>currentQuestionIndex = 0, responses = [], participantCount = 0,
      questions = [\<lparr>q_id = ''a'', question_type = rating, question_text = ''One'',
                    options = None, order_index = 0\<rparr>,
                   \<lparr>q_id = ''b'', question_type = open_ended, question_text = ''Two'',
                    options = None, order_index = 1\<rparr>]\<rparr>
   = \<lparr>currentQuestionIndex = 0, responses = [], participantCount = 0,
      questions = [\<lparr>q_id = ''a'', question_type = rating, question_text = ''One'',
                    options = None, order_index = 0\<rparr>,
                   \<lparr>q_id = ''b'', question_type = open_ended, question_text = ''Two'',
                    options = None, order_index = 1\<rparr>]\<rparr>"
proof -
  let ?qs = "[\<lparr>q_id = ''a'', question_type = rating, question_text = ''One'',
                options = None, order_index = 0\<rparr>,
              \<lparr>q_id = ''b'', question_type = open_ended, question_text = ''Two'',
                options = None, order_index = 1\<rparr>]"
  let ?last = "\<lparr>currentQuestionIndex = 1, responses = [], participantCount = 0,
                 questions = ?qs\<rparr>"
  let ?first = "\<lparr>currentQuestionIndex = 0, responses = [], participantCount = 0,
                  questions = ?qs\<rparr>"
  have "questions ?last \<noteq> []" and "currentQuestionIndex ?last = length (questions ?last) - 1"
    by simp_all
  with navigation_noop_at_boundaries[of ?last] have "nextQuestion ?last = ?last"
    by blast
  moreover have "questions ?first \<noteq> []" and "currentQuestionIndex ?first = 0"
    by simp_all
  with navigation_noop_at_boundaries[of ?first] have "prevQuestion ?first = ?first"
    by blast
  ultimately show ?thesis by blast
qed

section \<open>Ratings outside 1 to 10\<close>

text \<open>
  C8, as stated, at the rating 11: the response is not rejected. The callback files it
  under the rating question and counts it, so one response is shown as received, while
  no entry of the chart changes.
\<close>

theorem rating_eleven_is_stored:
  "current_responses
     (on_response_insert
        (setQuestions initial_presenter
           [\<lparr>q_id = ''r1'', question_type = rating, question_text = ''How was it?'',
             options = None, order_index = 0\<rparr>])
        \<lparr>question_id = ''r1'', response_data = Number 11\<rparr>)
   = [Number 11]
   \<and> responses_received
       (on_response_insert
          (setQuestions initial_presenter
             [\<lparr>q_id = ''r1'', question_type = rating, question_text = ''How was it?'',
               options = None, order_index = 0\<rparr>])
          \<lparr>question_id = ''r1'', response_data = Number 11\<rparr>)
     = 1
   \<and> participantCount
       (on_response_insert
          (setQuestions initial_presenter
             [\<lparr>q_id = ''r1'', question_type = rating, question_text = ''How was it?'',
               options = None, order_index = 0\<rparr>])
          \<lparr>question_id = ''r1'', response_data = Number 11\<rparr>)
     = 1
   \<and> map val
       (getChartData
          (on_response_insert
             (setQuestions initial_presenter
                [\<lparr>q_id = ''r1'', question_type = rating, question_text = ''How was it?'',
                  options = None, order_index = 0\<rparr>])
             \<lparr>question_id = ''r1'', response_data = Number 11\<rparr>))
     = [0, 0, 0, 0, 0, 0, 0, 0, 0, 0]"
  by (simp add: presenter_eval current_responses_def responses_received_def
      getChartData_def chart_data_rating upto_one_to_ten)

text \<open>
  C8, amended: no range check exists. A rating outside 1 to 10 that reaches the presenter
  is stored and counted like every response; it matches none of the ten buckets, so the
  chart is unchanged.
\<close>

theorem rating_out_of_range:
  assumes "currentQuestion s = Some q" and "question_type q = rating"
    and "question_id r = q_id q"
    and "response_data r \<notin> Number ` {1..10}"
  shows "getChartData (on_response_insert s r) = getChartData s
         \<and> questionResponses (on_response_insert s r) q
             = questionResponses s q @ [response_data r]
         \<and> participantCount (on_response_insert s r) = participantCount s + 1"
proof -
  have stored: "questionResponses (on_response_insert s r) q
                  = questionResponses s q @ [response_data r]"
    using assms(3) by (simp add: questionResponses_insert)
  have "\<And>i. i \<in> set [1..10] \<Longrightarrow> response_data r \<noteq> Number i"
    using assms(4) by auto
  then have "chart_data q (questionResponses s q @ [response_data r])
               = chart_data q (questionResponses s q)"
    using assms(2) by (simp add: chart_data_rating)
  with stored assms(1) have chart: "getChartData (on_response_insert s r) = getChartData s"
    by (simp add: getChartData_def)
  from chart stored show ?thesis by simp
qed

text \<open>C8, an instance: the rating 11 after the ratings 7 and 3.\<close>

theorem rating_out_of_range_witness:
  "getChartData
     (on_response_insert
        \<lparr>currentQuestionIndex = 0, responses = [(''r1'', [Number 7, Number 3])],
         participantCount = 2,
         questions = [\<lparr>q_id = ''r1'', question_type = rating, question_text = ''How was it?'',
                       options = None, order_index = 0\<rparr>]\<rparr>
        \<lparr>question_id = ''r1'', response_data = Number 11\<rparr>)
   = getChartData
       \<lparr>currentQuestionIndex = 0, responses = [(''r1'', [Number 7, Number 3])],
        participantCount = 2,
        questions = [\<lparr>q_id = ''r1'', question_type = rating, question_text = ''How was it?'',
                      options = None, order_index = 0\<rparr>]\<rparr>
   \<and> current_responses
       (on_response_insert
          \<lparr>currentQuestionIndex = 0, responses = [(''r1'', [Number 7, Number 3])],
           participantCount = 2,
           questions = [\<lparr>q_id = ''r1'', question_type = rating,
                         question_text = ''How was it?'', options = None, order_index = 0\<rparr>]\<rparr>
          \<lparr>question_id = ''r1'', response_data = Number 11\<rparr>)
     = [Number 7, Number 3, Number 11]
   \<and> participantCount
       (on_response_insert
          \<lparr>currentQuestionIndex = 0, responses = [(''r1'', [Number 7, Number 3])],
           participantCount = 2,
           questions = [\<lparr>q_id = ''r1'', question_type = rating,
                         question_text = ''How was it?'', options = None, order_index = 0\<rparr>]\<rparr>
          \<lparr>question_id = ''r1'', response_data = Number 11\<rparr>)
     = 3"
proof -
  let ?q = "\<lparr>q_id = ''r1'', question_type = rating, question_text = ''How was it?'',
             options = None, order_index = 0\<rparr>"
  let ?s = "\<lparr>currentQuestionIndex = 0, responses = [(''r1'', [Number 7, Number 3])],
             participantCount = 2, questions = [?q]\<rparr>"
  let ?r = "\<lparr>question_id = ''r1'', response_data = Number 11\<rparr>"
  have cur: "currentQuestion ?s = Some ?q"
    by (simp add: presenter_eval)
  have kind: "question_type ?q = rating"
    by simp
  have same: "question_id ?r = q_id ?q"
    by simp
  have outside: "response_data ?r \<notin> Number ` {1..10}"
    by auto
  have before: "questionResponses ?s ?q = [Number 7, Number 3]"
    by (simp add: presenter_eval)
  from rating_out_of_range[OF cur kind same outside] before show ?thesis
    by (simp add: current_responses_def cur)
qed

section \<open>Open-ended responses\<close>

text \<open>
  C9, as stated: the list rendered for an open-ended question has no maximum length.
  Whatever bound is proposed, a longer sequence of responses is rendered in full.
\<close>

theorem open_ended_list_has_no_cap:
  "\<not> (\<exists>cap. \<forall>rows.
         length (current_responses
                   (foldl on_response_insert
                      (setQuestions initial_presenter
                         [\<lparr>q_id = ''o1'', question_type = open_ended,
                           question_text = ''Any suggestions?'', options = None,
                           order_index = 0\<rparr>])
                      rows)) \<le> cap)"
proof
  let ?q = "\<lparr>q_id = ''o1'', question_type = open_ended, question_text = ''Any suggestions?'',
             options = None, order_index = 0\<rparr>"
  let ?s = "setQuestions initial_presenter [?q]"
  assume "\<exists>cap. \<forall>rows. length (current_responses (foldl on_response_insert ?s rows)) \<le> cap"
  then obtain cap where
    bound: "\<And>rows. length (current_responses (foldl on_response_insert ?s rows)) \<le> cap"
    by blast
  have cur: "currentQuestion ?s = Some ?q"
    by (simp add: presenter_eval)
  let ?rows = "replicate (Suc cap) \<lparr>question_id = ''o1'', response_data = Text ''more''\<rparr>"
  have "length (current_responses (foldl on_response_insert ?s ?rows)) = Suc cap"
    unfolding current_responses_inserts[OF cur]
    by (simp add: current_responses_def presenter_eval)
  with bound[of ?rows] show False by simp
qed

text \<open>
  C9, amended: for the question on display, the rendered list after a sequence of
  response events is the list before, followed by the values of the events for that
  question in arrival order. Nothing is removed or reordered, and no maximum is applied:
  the length grows by the number of those events.
\<close>

theorem open_ended_list_append_only:
  assumes "currentQuestion s = Some q"
  shows "current_responses (foldl on_response_insert s rows)
           = current_responses s
             @ map response_data (filter (\<lambda>r. question_id r = q_id q) rows)
         \<and> responses_received (foldl on_response_insert s rows)
           = responses_received s + length (filter (\<lambda>r. question_id r = q_id q) rows)"
  using current_responses_inserts[OF assms, of rows]
  by (simp add: responses_received_def)

text \<open>C9, an instance: two responses for the open-ended question and one for another.\<close>

theorem open_ended_list_append_only_witness:
  "current_responses
     (foldl on_response_insert
        \<lparr>currentQuestionIndex = 0, responses = [(''o1'', [Text ''first''])],
         participantCount = 1,
         questions = [\<lparr>q_id = ''o1'', question_type = open_ended,
                       question_text = ''Any suggestions?'', options = None,
                       order_index = 0\<rparr>]\<rparr>
        [\<lparr>question_id = ''o1'', response_data = Text ''second''\<rparr>,
         \<lparr>question_id = ''x'', response_data = Text ''elsewhere''\<rparr>,
         \<lparr>question_id = ''o1'', response_data = Text ''third''\<rparr>])
   = [Text ''first'', Text ''second'', Text ''third'']"
proof -
  let ?q = "\<lparr>q_id = ''o1'', question_type = open_ended, question_text = ''Any suggestions?'',
             options = None, order_index = 0\<rparr>"
  let ?s = "\<lparr>currentQuestionIndex = 0, responses = [(''o1'', [Text ''first''])],
             participantCount = 1, questions = [?q]\<rparr>"
  have cur: "currentQuestion ?s = Some ?q"
    by (simp add: presenter_eval)
  from open_ended_list_append_only[OF cur] show ?thesis
    by (simp add: current_responses_def presenter_eval)
qed

section \<open>The participant count\<close>

text \<open>
  C10: after \<open>fetchResponses\<close> has stored the fetched rows, and the realtime callback
  has run for a sequence of response events, the participant count is the number of
  fetched rows plus the number of events. It equals the number of response values held
  for all questions together; no notion of a participant enters.
\<close>

theorem participant_count_counts_responses:
  assumes "questions s \<noteq> []"
  shows "participantCount (fetchResponses s (Some data)) = length data
         \<and> participantCount (foldl on_response_insert (fetchResponses s (Some data)) rows)
             = length data + length rows
         \<and> total_responses (foldl on_response_insert (fetchResponses s (Some data)) rows)
             = length data + length rows"
proof -
  have "total_responses (fetchResponses s (Some data)) = length data"
    using assms sum_lengths_grouped[of "[]" data]
    by (simp add: fetchResponses_def total_responses_def)
  moreover have "participantCount (fetchResponses s (Some data)) = length data"
    using assms by (simp add: fetchResponses_def)
  ultimately show ?thesis
    by (simp add: participantCount_inserts total_responses_inserts)
qed

text \<open>
  C10, an instance: two fetched rows and two events, for two questions; the count is 4.
\<close>

theorem participant_count_counts_responses_witness:
  "participantCount
     (foldl on_response_insert
        (fetchResponses
           (setQuestions initial_presenter
              [\<lparr>q_id = ''q1'', question_type = rating, question_text = ''First'',
                options = None, order_index = 0\<rparr>,
               \<lparr>q_id = ''q2'', question_type = open_ended, question_text = ''Second'',
                options = None, order_index = 1\<rparr>])
           (Some [\<lparr>question_id = ''q1'', response_data = Number 7\<rparr>,
                  \<lparr>question_id = ''q2'', response_data = Text ''fine''\<rparr>]))
        [\<lparr>question_id = ''q1'', response_data = Number 9\<rparr>,
         \<lparr>question_id = ''q2'', response_data = Text ''good''\<rparr>])
   = 4"
proof -
  let ?s = "setQuestions initial_presenter
              [\<lparr>q_id = ''q1'', question_type = rating, question_text = ''First'',
                options = None, order_index = 0\<rparr>,
               \<lparr>q_id = ''q2'', question_type = open_ended, question_text = ''Second'',
                options = None, order_index = 1\<rparr>]"
  have "questions ?s \<noteq> []"
    by (simp add: presenter_eval)
  from participant_count_counts_responses[OF this] show ?thesis
    by simp
qed

end
